theory Spec2Isabelle
  imports Main "HOL-Library.Sublist"
begin

section \<open>Data model of the BIG-IQ 5.2 license provider\<close>

text \<open>
  The embedding follows \<^verbatim>\<open>src/lib/bigIq5_2LicenseProvider.js\<close>. The documents the remote
  control plane delivers are typed as the data model of the specification types them:
  a timestamp is a point on the time line (the value a JavaScript \<^verbatim>\<open>Date\<close> compares by),
  a registration key is a string, an offering carries a \<^verbatim>\<open>licenseState\<close> object.
\<close>

type_synonym timestamp = int

type_synonym document = string

record LicenseState =
  licenseStartDateTime :: timestamp
  licenseEndDateTime :: timestamp
  registrationKey :: string

record LicenseOffering =
  licenseState :: LicenseState

text \<open>
  A pool document. The source reads \<^verbatim>\<open>response[i].name\<close> and \<^verbatim>\<open>response[i].id\<close>; a
  missing \<^verbatim>\<open>id\<close> is \<^verbatim>\<open>undefined\<close>, here \<open>None\<close>.
\<close>

record LicensePool =
  name :: string
  id' :: "string option"

record LicenseAssignment =
  uuid :: string
  state :: string

record RetryPolicy =
  maxRetries :: nat
  retryIntervalMs :: nat

subsection \<open>Promises and the remote client\<close>

text \<open>
  The reason of a rejection: \<^verbatim>\<open>reject()\<close> passes no value, \<^verbatim>\<open>reject(new Error(m))\<close> passes
  an error with message \<open>m\<close>; the bounded-retry executor wraps the last failure it saw.
\<close>

datatype reason = NoReason | Error string | RetryExhausted reason

text \<open>
  The fate of a promise. \<open>Pending\<close> is a promise that is never settled (a deferred on which
  neither \<^verbatim>\<open>resolve\<close> nor \<^verbatim>\<open>reject\<close> is ever called).
\<close>

datatype 'a promise = Resolved 'a | Rejected reason | Pending

text \<open>The outcome of one call of the REST client: a parsed response or a transport error.\<close>

datatype 'a reply = Ok 'a | Failed reason

text \<open>What \<^verbatim>\<open>Array.isArray\<close> tells apart: an array of documents, or some other value.\<close>

datatype 'a listing = IsArray "'a list" | NotArray document

fun isArray :: "'a listing \<Rightarrow> bool" where
  "isArray (IsArray xs) = True"
| "isArray (NotArray d) = False"

fun arrayLength :: "'a listing \<Rightarrow> nat" where
  "arrayLength (IsArray xs) = length xs"
| "arrayLength (NotArray d) = 0"

text \<open>
  \<^verbatim>\<open>bigIqControl.list\<close>, one field for each resource the provider lists. The argument is the
  path the code builds. As with the repository's test double (\<^verbatim>\<open>icontrolMock.when\<close>), the
  reply to a listing of pools, offerings or members is determined by the path; the
  assignment resource is polled repeatedly, so its reply may also depend on the number of
  requests issued before.
\<close>

record bigIqControl =
  listPools :: "string \<Rightarrow> LicensePool listing reply"
  listOfferings :: "string \<Rightarrow> LicenseOffering list option reply"
  listMembers :: "string \<Rightarrow> document listing reply"
  listAssignment :: "nat \<Rightarrow> string \<Rightarrow> LicenseAssignment reply"

text \<open>
  What one run of \<^verbatim>\<open>getUnmanagedDeviceLicense\<close> leaves behind: the fate of the promise it
  returned, the fate of a promise chain it started without returning it (if any), and the
  paths it listed, in order.
\<close>

record licenseRun =
  returned :: "unit promise"
  detached :: "unit promise option"
  requests :: "string list"

section \<open>The license provider\<close>

definition LICENSE_PATH :: string where
  "LICENSE_PATH = ''/cm/device/licensing/pool/regkey/licenses/''"

definition poolsPath :: string where
  "poolsPath = LICENSE_PATH @ ''?$select=uuid,name''"

definition offeringsPath :: "string \<Rightarrow> string" where
  "offeringsPath poolUuid = LICENSE_PATH @ poolUuid @ ''/offerings''"

definition membersPath :: "string \<Rightarrow> string \<Rightarrow> string" where
  "membersPath poolUuid key = LICENSE_PATH @ poolUuid @ ''/offerings/'' @ key @ ''/members''"

text \<open>
  The loop of lines 73-78: the \<^verbatim>\<open>id\<close> of the first pool whose name is \<^verbatim>\<open>poolName\<close>;
  \<^verbatim>\<open>poolUuid\<close> stays \<^verbatim>\<open>undefined\<close> when no pool has that name.
\<close>

fun findPool :: "string \<Rightarrow> LicensePool list \<Rightarrow> string option" where
  "findPool poolName [] = None"
| "findPool poolName (p # ps) = (if name p = poolName then id' p else findPool poolName ps)"

text \<open>\<^verbatim>\<open>if (poolUuid)\<close>: \<^verbatim>\<open>undefined\<close> and the empty string are falsy.\<close>

fun truthy :: "string option \<Rightarrow> bool" where
  "truthy None = False"
| "truthy (Some s) = (s \<noteq> [])"

text \<open>String concatenation turns \<^verbatim>\<open>undefined\<close> into the text \<^verbatim>\<open>undefined\<close>.\<close>

fun toString :: "string option \<Rightarrow> string" where
  "toString None = ''undefined''"
| "toString (Some s) = s"

text \<open>
  \<^verbatim>\<open>findValidLicense\<close> (lines 99-127). The continuation-passing recursion over \<^verbatim>\<open>index\<close>
  settles the deferred exactly once; the function returns that settlement together with
  the extended request log.
\<close>

function findValidLicense ::
  "bigIqControl \<Rightarrow> string \<Rightarrow> timestamp \<Rightarrow> LicenseOffering list \<Rightarrow> nat \<Rightarrow> string list
    \<Rightarrow> string promise \<times> string list" where
  "findValidLicense ctl poolUuid now licenses index calls =
    (if int index > int (length licenses) - 1 then (Rejected NoReason, calls)
     else
       let license = licenses ! index in
       if licenseStartDateTime (licenseState license) < now
          \<and> now < licenseEndDateTime (licenseState license)
       then
         let path = membersPath poolUuid (registrationKey (licenseState license)) in
         (case listMembers ctl path of
            Ok response \<Rightarrow>
              if isArray response \<and> arrayLength response = 0
              then (Resolved (registrationKey (licenseState license)), calls @ [path])
              else findValidLicense ctl poolUuid now licenses (index + 1) (calls @ [path])
          | Failed err \<Rightarrow>
              findValidLicense ctl poolUuid now licenses (index + 1) (calls @ [path]))
       else findValidLicense ctl poolUuid now licenses (index + 1) calls)"
  by pat_completeness auto
termination
  by (relation "measure (\<lambda>(ctl, poolUuid, now, licenses, index, calls). length licenses - index)")
    auto

declare findValidLicense.simps [simp del]

text \<open>
  The second handler of the chain (lines 93-132): \<^verbatim>\<open>licenses = response || []\<close>, then the
  scan from index 0. \<open>None\<close> is a falsy response.
\<close>

definition selectLicense ::
  "bigIqControl \<Rightarrow> string \<Rightarrow> timestamp \<Rightarrow> LicenseOffering list option \<Rightarrow> string list
    \<Rightarrow> string promise \<times> string list" where
  "selectLicense ctl poolUuid now response calls =
    (let licenses = (case response of Some r \<Rightarrow> r | None \<Rightarrow> [])
     in findValidLicense ctl poolUuid now licenses 0 calls)"

text \<open>
  The third handler receives what the scan resolved with, the registration key, and reads
  \<^verbatim>\<open>response.state\<close> and \<^verbatim>\<open>response.uuid\<close> from it. A string has neither property: both
  lookups yield \<^verbatim>\<open>undefined\<close>.
\<close>

definition keyProperty :: "string \<Rightarrow> string \<Rightarrow> string option" where
  "keyProperty response property = None"

definition assignmentPath :: "string \<Rightarrow> string option \<Rightarrow> string" where
  "assignmentPath poolUuid licenseUuid =
    ''/cm/shared/licensing/pools/'' @ poolUuid @ ''/members/'' @ toString licenseUuid"

text \<open>
  \<^verbatim>\<open>isLicensed\<close> (lines 139-158): one poll of the assignment. The deferred is resolved on
  \<^verbatim>\<open>LICENSED\<close>, rejected without a value on any other state, and left unsettled when the
  listing itself fails (the chain has no \<^verbatim>\<open>catch\<close>).
\<close>

definition isLicensed ::
  "bigIqControl \<Rightarrow> string \<Rightarrow> string option \<Rightarrow> string list \<Rightarrow> unit promise \<times> string list" where
  "isLicensed ctl poolUuid licenseUuid calls =
    (let path = assignmentPath poolUuid licenseUuid in
     case listAssignment ctl (length calls) path of
       Ok response \<Rightarrow>
         if state response = ''LICENSED'' then (Resolved (), calls @ [path])
         else (Rejected NoReason, calls @ [path])
     | Failed err \<Rightarrow> (Pending, calls @ [path]))"

text \<open>
  The bounded-retry executor \<^verbatim>\<open>util.tryUntil\<close> lives in \<^verbatim>\<open>lib/util.js\<close>, which is not
  among the sources; the provider takes it as a parameter of this type: a policy, the
  action to try, the request log so far.
\<close>

type_synonym executor =
  "RetryPolicy \<Rightarrow> (string list \<Rightarrow> unit promise \<times> string list) \<Rightarrow> string list
    \<Rightarrow> unit promise \<times> string list"

text \<open>
  The chain \<^verbatim>\<open>.then(function() { return q(); }).catch(function() { return q.reject(new
  Error('Giving up on licensing via BIG-IQ.')); })\<close> hung on the executor's promise.
\<close>

fun givingUp :: "unit promise \<Rightarrow> unit promise" where
  "givingUp (Resolved u) = Resolved ()"
| "givingUp (Rejected r) = Rejected (Error ''Giving up on licensing via BIG-IQ.'')"
| "givingUp Pending = Pending"

text \<open>
  The third handler of the chain (lines 133-180). In the waiting branch the promise of
  \<^verbatim>\<open>util.tryUntil(...)\<close> is not returned from the handler: the handler returns
  \<^verbatim>\<open>undefined\<close>, so the promise of the whole chain is resolved at once, and the retry chain
  runs on its own.
\<close>

definition waitUntilLicensed ::
  "executor \<Rightarrow> bigIqControl \<Rightarrow> string \<Rightarrow> string \<Rightarrow> string list \<Rightarrow> licenseRun" where
  "waitUntilLicensed tryUntil ctl poolUuid response calls =
    (if response \<noteq> [] then
       let state = keyProperty response ''state'';
           licenseUuid = keyProperty response ''uuid''
       in
         if state = Some ''LICENSED''
         then \<lparr>returned = Resolved (), detached = None, requests = calls\<rparr>
         else
           let (outcome, calls') =
                 tryUntil \<lparr>maxRetries = 40, retryIntervalMs = 5000\<rparr>
                   (isLicensed ctl poolUuid licenseUuid) calls
           in \<lparr>returned = Resolved (), detached = Some (givingUp outcome), requests = calls'\<rparr>
     else \<lparr>returned = Resolved (), detached = None, requests = calls\<rparr>)"

text \<open>
  \<^verbatim>\<open>getUnmanagedDeviceLicense\<close> (lines 59-181). A rejection in one handler skips the
  handlers after it and becomes the fate of the returned promise. \<open>now\<close> is the value of
  \<^verbatim>\<open>new Date()\<close> taken by the second handler.
\<close>

definition getUnmanagedDeviceLicense ::
  "executor \<Rightarrow> bigIqControl \<Rightarrow> string \<Rightarrow> timestamp \<Rightarrow> licenseRun" where
  "getUnmanagedDeviceLicense tryUntil ctl poolName now =
    (case listPools ctl poolsPath of
       Failed err \<Rightarrow> \<lparr>returned = Rejected err, detached = None, requests = [poolsPath]\<rparr>
     | Ok response \<Rightarrow>
        (case response of
           IsArray pools \<Rightarrow>
             let poolUuid = findPool poolName pools in
             if truthy poolUuid then
               (case listOfferings ctl (offeringsPath (toString poolUuid)) of
                  Failed err \<Rightarrow>
                    \<lparr>returned = Rejected err, detached = None,
                     requests = [poolsPath, offeringsPath (toString poolUuid)]\<rparr>
                | Ok offerings \<Rightarrow>
                   (case selectLicense ctl (toString poolUuid) now offerings
                           [poolsPath, offeringsPath (toString poolUuid)] of
                      (Resolved key, calls) \<Rightarrow>
                        waitUntilLicensed tryUntil ctl (toString poolUuid) key calls
                    | (Rejected r, calls) \<Rightarrow>
                        \<lparr>returned = Rejected r, detached = None, requests = calls\<rparr>
                    | (Pending, calls) \<Rightarrow>
                        \<lparr>returned = Pending, detached = None, requests = calls\<rparr>))
             else
               \<lparr>returned = Rejected (Error (''No license pool found with name: '' @ poolName)),
                detached = None, requests = [poolsPath]\<rparr>
         | NotArray d \<Rightarrow>
             \<lparr>returned = Rejected (Error (''Error getting license pools: '' @ d)),
              detached = None, requests = [poolsPath]\<rparr>))"

subsection \<open>The bounded-retry executor\<close>

text \<open>
  Modelled from the spec: \<^verbatim>\<open>util.tryUntil\<close>, whose source file \<^verbatim>\<open>lib/util.js\<close> is missing.
  Section 4.1: the action is invoked immediately; a success is returned; a failure with
  retries left is followed by another attempt (the delay of \<^verbatim>\<open>retryIntervalMs\<close> passes no
  information and is not represented); a failure with the budget used up gives
  \<^verbatim>\<open>RetryExhausted\<close> wrapping the last failure; \<^verbatim>\<open>maxRetries = 0\<close> is one attempt. An action
  that never settles leaves the executor's promise unsettled. The first argument counts
  the retries left.
\<close>

fun tryUntilLeft ::
  "nat \<Rightarrow> (string list \<Rightarrow> unit promise \<times> string list) \<Rightarrow> string list
    \<Rightarrow> unit promise \<times> string list" where
  "tryUntilLeft 0 action calls =
    (let (outcome, calls') = action calls in
     case outcome of
       Rejected r \<Rightarrow> (Rejected (RetryExhausted r), calls')
     | Resolved u \<Rightarrow> (Resolved u, calls')
     | Pending \<Rightarrow> (Pending, calls'))"
| "tryUntilLeft (Suc n) action calls =
    (let (outcome, calls') = action calls in
     case outcome of
       Rejected r \<Rightarrow> tryUntilLeft n action calls'
     | Resolved u \<Rightarrow> (Resolved u, calls')
     | Pending \<Rightarrow> (Pending, calls'))"

definition tryUntil :: executor where
  "tryUntil policy action calls = tryUntilLeft (maxRetries policy) action calls"

section \<open>The onboarding operations\<close>

text \<open>
  \<^verbatim>\<open>lib/bigIpOnboard.js\<close> is not among the sources; only its test suite
  \<^verbatim>\<open>src/test/lib/bigIpOnboardTests.js\<close> is. The operations below are written from the
  specification, with the paths and request bodies the test suite expects.
\<close>

datatype json = Str string | Obj "(string \<times> json) list"

datatype request = Create string json | Modify string json

datatype reconciled = NoOp string | AppliedPatch "(string \<times> json) list"

datatype failure = ConfigurationError string

text \<open>
  Modelled from the spec: \<^verbatim>\<open>applyIfDifferent\<close> of the StateReconciler (section 4.2), whose
  source \<^verbatim>\<open>lib/bigIpOnboard.js\<close> is missing. The subset of the desired fields whose value
  differs from, or is absent in, the fetched current state.
\<close>

definition differingFields :: "(string \<times> json) list \<Rightarrow> (string \<rightharpoonup> json) \<Rightarrow> (string \<times> json) list" where
  "differingFields desired current = filter (\<lambda>(field, v). current field \<noteq> Some v) desired"

text \<open>
  Modelled from the spec: \<^verbatim>\<open>applyIfDifferent\<close> (section 4.2), source missing as above. With
  no differing field the result is \<^verbatim>\<open>NoOp\<close> and nothing is issued; otherwise a single
  \<^verbatim>\<open>modify\<close> with exactly the differing fields is issued.
\<close>

definition applyIfDifferent ::
  "string \<Rightarrow> (string \<times> json) list \<Rightarrow> (string \<rightharpoonup> json) \<Rightarrow> reconciled \<times> request list" where
  "applyIfDifferent resourcePath desired current =
    (let patch = differingFields desired current in
     if patch = [] then (NoOp ''already matches desired value'', [])
     else (AppliedPatch patch, [Modify resourcePath (Obj patch)]))"

text \<open>
  Modelled from the spec: the effect of a \<^verbatim>\<open>modify\<close> on the remote resource (sections 3 and
  4.2), which belongs to the remote control plane: the fields of the body are written,
  every other field keeps its value.
\<close>

fun applyRequest :: "(string \<rightharpoonup> json) \<Rightarrow> request \<Rightarrow> (string \<rightharpoonup> json)" where
  "applyRequest current (Modify path (Obj entries)) = current ++ map_of entries"
| "applyRequest current r = current"

text \<open>
  Modelled from the spec: the hostname operation (sections 4.2 and 8, rename
  idempotence), source \<^verbatim>\<open>lib/bigIpOnboard.js\<close> missing. \<open>current\<close> is the device name
  fetched from \<^verbatim>\<open>/tm/cm/device\<close>. Equal names give a no-op whose message notes the match;
  differing names give the \<^verbatim>\<open>mv\<close>-style create on the device resource, then the modify
  of the global settings.
\<close>

definition hostname :: "string \<Rightarrow> string \<Rightarrow> reconciled \<times> request list" where
  "hostname current newHostname =
    (if newHostname = current
     then (NoOp ''New hostname matches existing hostname'', [])
     else (AppliedPatch [(''hostname'', Str newHostname)],
           [Create ''/tm/cm/device''
              (Obj [(''command'', Str ''mv''), (''name'', Str current),
                    (''target'', Str newHostname)]),
            Modify ''/tm/sys/global-settings'' (Obj [(''hostname'', Str newHostname)])]))"

text \<open>The optional \<^verbatim>\<open>shell\<close> field of a user body.\<close>

fun shellField :: "string option \<Rightarrow> (string \<times> json) list" where
  "shellField None = []"
| "shellField (Some sh) = [(''shell'', Str sh)]"

text \<open>
  Modelled from the spec: \<^verbatim>\<open>updateUser\<close> (sections 6 and 8, user create-vs-update), source
  \<^verbatim>\<open>lib/bigIpOnboard.js\<close> missing. \<open>existing\<close> holds the names of the listing of
  \<^verbatim>\<open>/tm/auth/user\<close>. An existing user is modified, without name and without role; a new
  user is created with the role under \<^verbatim>\<open>partition-access\<close>; a new user without a role is a
  configuration error.
\<close>

definition updateUser ::
  "string list \<Rightarrow> string \<Rightarrow> string \<Rightarrow> string option \<Rightarrow> string option \<Rightarrow> failure + request" where
  "updateUser existing user password role shell =
    (if user \<in> set existing
     then Inr (Modify (''/tm/auth/user/'' @ user)
                 (Obj ((''password'', Str password) # shellField shell)))
     else
       case role of
         None \<Rightarrow> Inl (ConfigurationError (''No role specified for new user '' @ user))
       | Some r \<Rightarrow>
           Inr (Create ''/tm/auth/user''
                  (Obj ([(''name'', Str user), (''password'', Str password)]
                        @ shellField shell
                        @ [(''partition-access'',
                            Obj [(''all-partitions'', Obj [(''role'', Str r)])])]))))"

text \<open>The fields of a request body, for lookup by name.\<close>

fun bodyFields :: "request \<Rightarrow> (string \<times> json) list" where
  "bodyFields (Create path (Obj entries)) = entries"
| "bodyFields (Modify path (Obj entries)) = entries"
| "bodyFields r = []"

fun isCreate :: "request \<Rightarrow> bool" where
  "isCreate (Create path b) = True"
| "isCreate (Modify path b) = False"

section \<open>Vocabulary of the properties\<close>

text \<open>The two checks of the offering scan, as conditions on one offering.\<close>

definition inWindow :: "timestamp \<Rightarrow> LicenseOffering \<Rightarrow> bool" where
  "inWindow now license \<longleftrightarrow>
     licenseStartDateTime (licenseState license) < now
     \<and> now < licenseEndDateTime (licenseState license)"

definition unclaimed :: "bigIqControl \<Rightarrow> string \<Rightarrow> LicenseOffering \<Rightarrow> bool" where
  "unclaimed ctl poolUuid license \<longleftrightarrow>
     listMembers ctl (membersPath poolUuid (registrationKey (licenseState license)))
       = Ok (IsArray [])"

text \<open>
  A remote control plane to run the provider against: one pool \<^verbatim>\<open>pool1\<close> with three
  offerings (the first expired, the second claimed, the third free), and an assignment
  that reports the given state at every poll.
\<close>

definition exampleOfferings :: "LicenseOffering list" where
  "exampleOfferings =
    [\<lparr>licenseState = \<lparr>licenseStartDateTime = 0, licenseEndDateTime = 10,
                      registrationKey = ''K1''\<rparr>\<rparr>,
     \<lparr>licenseState = \<lparr>licenseStartDateTime = 0, licenseEndDateTime = 100,
                      registrationKey = ''K2''\<rparr>\<rparr>,
     \<lparr>licenseState = \<lparr>licenseStartDateTime = 0, licenseEndDateTime = 100,
                      registrationKey = ''K3''\<rparr>\<rparr>]"

definition exampleMembers :: "string \<Rightarrow> document listing reply" where
  "exampleMembers path =
    (if path = membersPath ''uuid1'' ''K2'' then Ok (IsArray [''device-1''])
     else if path = membersPath ''uuid1'' ''K3'' then Ok (IsArray [])
     else if path = membersPath ''uuid1'' ''K5'' then Ok (NotArray ''{}'')
     else Failed (Error ''404''))"

text \<open>
  Offerings whose membership listing goes wrong: it fails for \<^verbatim>\<open>K4\<close> and delivers a
  document that is no array for \<^verbatim>\<open>K5\<close>; \<^verbatim>\<open>K3\<close> is free.
\<close>

definition strayOfferings :: "LicenseOffering list" where
  "strayOfferings =
    [\<lparr>licenseState = \<lparr>licenseStartDateTime = 0, licenseEndDateTime = 100,
                      registrationKey = ''K4''\<rparr>\<rparr>,
     \<lparr>licenseState = \<lparr>licenseStartDateTime = 0, licenseEndDateTime = 100,
                      registrationKey = ''K5''\<rparr>\<rparr>,
     \<lparr>licenseState = \<lparr>licenseStartDateTime = 0, licenseEndDateTime = 100,
                      registrationKey = ''K3''\<rparr>\<rparr>]"

definition exampleControl :: "LicenseOffering list \<Rightarrow> string \<Rightarrow> bigIqControl" where
  "exampleControl offerings st =
    \<lparr>listPools = (\<lambda>path. Ok (IsArray [\<lparr>name = ''pool1'', id' = Some ''uuid1''\<rparr>])),
     listOfferings = (\<lambda>path. Ok (Some offerings)),
     listMembers = exampleMembers,
     listAssignment = (\<lambda>n path. Ok \<lparr>uuid = ''a1'', state = st\<rparr>)\<rparr>"

text \<open>
  An executor that only reports the policy it was handed: it resolves when the policy is
  40 retries at 5000 ms and stays unsettled otherwise.
\<close>

definition probe :: executor where
  "probe policy action calls =
    (if maxRetries policy = 40 \<and> retryIntervalMs policy = 5000 then (Resolved (), calls)
     else (Pending, calls))"

section \<open>The offering scan\<close>

text \<open>One step of the scan, by the branch it takes.\<close>

lemma scan_exhausted:
  "length licenses \<le> index \<Longrightarrow>
   findValidLicense ctl poolUuid now licenses index calls = (Rejected NoReason, calls)"
  by (subst findValidLicense.simps) simp

lemma scan_outside_window:
  "index < length licenses \<Longrightarrow> \<not> inWindow now (licenses ! index) \<Longrightarrow>
   findValidLicense ctl poolUuid now licenses index calls
     = findValidLicense ctl poolUuid now licenses (Suc index) calls"
  by (subst findValidLicense.simps) (auto simp: inWindow_def Let_def)

lemma scan_selected:
  "index < length licenses \<Longrightarrow> inWindow now (licenses ! index) \<Longrightarrow>
   unclaimed ctl poolUuid (licenses ! index) \<Longrightarrow>
   findValidLicense ctl poolUuid now licenses index calls
     = (Resolved (registrationKey (licenseState (licenses ! index))),
        calls @ [membersPath poolUuid (registrationKey (licenseState (licenses ! index)))])"
  by (subst findValidLicense.simps) (auto simp: inWindow_def unclaimed_def Let_def)

lemma empty_array_iff:
  "(isArray response \<and> arrayLength response = 0) \<longleftrightarrow> response = IsArray []"
  by (cases response) auto

lemma scan_claimed:
  "index < length licenses \<Longrightarrow> inWindow now (licenses ! index) \<Longrightarrow>
   \<not> unclaimed ctl poolUuid (licenses ! index) \<Longrightarrow>
   findValidLicense ctl poolUuid now licenses index calls
     = findValidLicense ctl poolUuid now licenses (Suc index)
         (calls @ [membersPath poolUuid (registrationKey (licenseState (licenses ! index)))])"
  by (subst findValidLicense.simps)
    (auto simp: inWindow_def unclaimed_def Let_def empty_array_iff split: reply.splits)

text \<open>
  The settlement of the scan started at \<open>index\<close> is decided by the first offering from
  \<open>index\<close> on that passes both checks.
\<close>

lemma scan_is_find:
  "fst (findValidLicense ctl poolUuid now licenses index calls) =
     (case find (\<lambda>l. inWindow now l \<and> unclaimed ctl poolUuid l) (drop index licenses) of
        Some license \<Rightarrow> Resolved (registrationKey (licenseState license))
      | None \<Rightarrow> Rejected NoReason)"
proof (induction "length licenses - index" arbitrary: index calls)
  case 0
  then show ?case by (simp add: scan_exhausted)
next
  case (Suc n)
  then have lt: "index < length licenses" and n: "n = length licenses - Suc index" by auto
  have step: "drop index licenses = licenses ! index # drop (Suc index) licenses"
    using lt by (simp add: Cons_nth_drop_Suc)
  consider (out) "\<not> inWindow now (licenses ! index)"
    | (claimed) "inWindow now (licenses ! index)" "\<not> unclaimed ctl poolUuid (licenses ! index)"
    | (free) "inWindow now (licenses ! index)" "unclaimed ctl poolUuid (licenses ! index)"
    by blast
  then show ?case
  proof cases
    case out
    then show ?thesis using Suc.hyps(1) [OF n] lt step by (simp add: scan_outside_window)
  next
    case claimed
    then show ?thesis using Suc.hyps(1) [OF n] lt step by (simp add: scan_claimed)
  next
    case free
    then show ?thesis using lt step by (simp add: scan_selected)
  qed
qed


text \<open>
  Claim C1. Whenever the scan of \<^verbatim>\<open>getUnmanagedDeviceLicense\<close> resolves with a registration
  key, that key belongs to an offering of the sequence whose \<^verbatim>\<open>licenseStartDateTime\<close> is
  strictly before \<open>now\<close>, whose \<^verbatim>\<open>licenseEndDateTime\<close> is strictly after \<open>now\<close>, and for
  whose key the membership listing delivered an empty array.
\<close>

theorem scan_selects_only_eligible:
  assumes "fst (findValidLicense ctl poolUuid now licenses 0 calls) = Resolved key"
  shows "\<exists>i<length licenses.
           registrationKey (licenseState (licenses ! i)) = key
           \<and> licenseStartDateTime (licenseState (licenses ! i)) < now
           \<and> now < licenseEndDateTime (licenseState (licenses ! i))
           \<and> listMembers ctl (membersPath poolUuid key) = Ok (IsArray [])"
proof -
  let ?P = "\<lambda>l. inWindow now l \<and> unclaimed ctl poolUuid l"
  from assms obtain l where f: "find ?P licenses = Some l"
    and k: "key = registrationKey (licenseState l)"
    using scan_is_find [of ctl poolUuid now licenses 0 calls]
    by (cases "find ?P licenses") auto
  from f obtain i where "i < length licenses" "?P (licenses ! i)" "l = licenses ! i"
    by (auto simp: find_Some_iff)
  with k show ?thesis by (auto simp: inWindow_def unclaimed_def)
qed

theorem scan_selects_only_eligible_witness:
  "fst (findValidLicense (exampleControl exampleOfferings ''PENDING'') ''uuid1'' 50
          exampleOfferings 0 []) = Resolved ''K3''
   \<and> (\<exists>i<length exampleOfferings.
           registrationKey (licenseState (exampleOfferings ! i)) = ''K3''
           \<and> licenseStartDateTime (licenseState (exampleOfferings ! i)) < 50
           \<and> 50 < licenseEndDateTime (licenseState (exampleOfferings ! i))
           \<and> listMembers (exampleControl exampleOfferings ''PENDING'')
               (membersPath ''uuid1'' ''K3'') = Ok (IsArray []))"
proof -
  have h: "fst (findValidLicense (exampleControl exampleOfferings ''PENDING'') ''uuid1'' 50
          exampleOfferings 0 []) = Resolved ''K3''"
    by code_simp
  show ?thesis using h scan_selects_only_eligible [OF h] by simp
qed

text \<open>
  Claim C2. The scan resolves with a key exactly when that key belongs to the first
  offering, in the order of the given sequence, that passes the time-window check and the
  empty-membership check; every offering before it fails one of the two. The right-hand
  side mentions the inventory, the membership replies and the clock only, so the scan is
  determined by them.
\<close>

theorem scan_first_fit:
  "fst (findValidLicense ctl poolUuid now licenses 0 calls) = Resolved key \<longleftrightarrow>
     (\<exists>i<length licenses.
        key = registrationKey (licenseState (licenses ! i))
        \<and> inWindow now (licenses ! i) \<and> unclaimed ctl poolUuid (licenses ! i)
        \<and> (\<forall>j<i. \<not> (inWindow now (licenses ! j) \<and> unclaimed ctl poolUuid (licenses ! j))))"
  (is "?lhs \<longleftrightarrow> ?rhs")
proof
  let ?P = "\<lambda>l. inWindow now l \<and> unclaimed ctl poolUuid l"
  assume ?lhs
  then obtain l where f: "find ?P licenses = Some l"
    and k: "key = registrationKey (licenseState l)"
    using scan_is_find [of ctl poolUuid now licenses 0 calls]
    by (cases "find ?P licenses") auto
  from f obtain i where "i < length licenses" "?P (licenses ! i)" "l = licenses ! i"
    "\<forall>j<i. \<not> ?P (licenses ! j)"
    by (auto simp: find_Some_iff)
  with k show ?rhs by blast
next
  let ?P = "\<lambda>l. inWindow now l \<and> unclaimed ctl poolUuid l"
  assume ?rhs
  then obtain i where i: "i < length licenses" "?P (licenses ! i)"
    "\<forall>j<i. \<not> ?P (licenses ! j)" and k: "key = registrationKey (licenseState (licenses ! i))"
    by blast
  from i have "find ?P licenses = Some (licenses ! i)"
    unfolding find_Some_iff by blast
  with k show ?lhs
    using scan_is_find [of ctl poolUuid now licenses 0 calls] by simp
qed

theorem scan_first_fit_witness:
  "fst (findValidLicense (exampleControl exampleOfferings ''PENDING'') ''uuid1'' 50
          exampleOfferings 0 []) = Resolved ''K3''
   \<and> inWindow 50 (exampleOfferings ! 2)
   \<and> unclaimed (exampleControl exampleOfferings ''PENDING'') ''uuid1'' (exampleOfferings ! 2)
   \<and> \<not> inWindow 50 (exampleOfferings ! 0)
   \<and> \<not> unclaimed (exampleControl exampleOfferings ''PENDING'') ''uuid1'' (exampleOfferings ! 1)"
proof -
  let ?ctl = "exampleControl exampleOfferings ''PENDING''"
  have w2: "inWindow 50 (exampleOfferings ! 2)" by code_simp
  have u2: "unclaimed ?ctl ''uuid1'' (exampleOfferings ! 2)" by code_simp
  have w0: "\<not> inWindow 50 (exampleOfferings ! 0)" by code_simp
  have u1: "\<not> unclaimed ?ctl ''uuid1'' (exampleOfferings ! 1)" by code_simp
  have k: "''K3'' = registrationKey (licenseState (exampleOfferings ! 2))" by code_simp
  have len: "2 < length exampleOfferings" by code_simp
  have before: "\<forall>j<2. \<not> (inWindow 50 (exampleOfferings ! j)
                    \<and> unclaimed ?ctl ''uuid1'' (exampleOfferings ! j))"
  proof (intro allI impI)
    fix j :: nat assume "j < 2"
    then have "j = 0 \<or> j = 1" by auto
    then show "\<not> (inWindow 50 (exampleOfferings ! j)
                    \<and> unclaimed ?ctl ''uuid1'' (exampleOfferings ! j))"
      using w0 u1 by auto
  qed
  have "fst (findValidLicense ?ctl ''uuid1'' 50 exampleOfferings 0 []) = Resolved ''K3''"
    using scan_first_fit [of ?ctl "''uuid1''" 50 exampleOfferings "[]" "''K3''"]
      len k w2 u2 before by blast
  then show ?thesis using w2 u2 w0 u1 by simp
qed

text \<open>
  The request log of the scan started at \<open>index\<close>: the membership listings of the
  offerings inside their window that come before the first one passing both checks, then
  the listing of that one.
\<close>

lemma scan_log:
  "snd (findValidLicense ctl poolUuid now licenses index calls) =
     calls
     @ map (\<lambda>l. membersPath poolUuid (registrationKey (licenseState l)))
         (filter (inWindow now)
            (takeWhile (\<lambda>l. \<not> (inWindow now l \<and> unclaimed ctl poolUuid l))
               (drop index licenses)))
     @ (case find (\<lambda>l. inWindow now l \<and> unclaimed ctl poolUuid l) (drop index licenses) of
          Some license \<Rightarrow> [membersPath poolUuid (registrationKey (licenseState license))]
        | None \<Rightarrow> [])"
proof (induction "length licenses - index" arbitrary: index calls)
  case 0
  then show ?case by (simp add: scan_exhausted)
next
  case (Suc n)
  then have lt: "index < length licenses" and n: "n = length licenses - Suc index" by auto
  have step: "drop index licenses = licenses ! index # drop (Suc index) licenses"
    using lt by (simp add: Cons_nth_drop_Suc)
  consider (out) "\<not> inWindow now (licenses ! index)"
    | (claimed) "inWindow now (licenses ! index)" "\<not> unclaimed ctl poolUuid (licenses ! index)"
    | (free) "inWindow now (licenses ! index)" "unclaimed ctl poolUuid (licenses ! index)"
    by blast
  then show ?case
  proof cases
    case out
    then show ?thesis using Suc.hyps(1) [OF n] lt step by (simp add: scan_outside_window)
  next
    case claimed
    then show ?thesis using Suc.hyps(1) [OF n] lt step by (simp add: scan_claimed)
  next
    case free
    then show ?thesis using lt step by (simp add: scan_selected)
  qed
qed

text \<open>
  Claim C10. At an offering inside its time window whose membership listing fails with an
  error, or delivers a value that is no array, the scan does not settle there: its
  outcome is decided by the offerings after it, in order (resolved with the key of the
  first of them passing both checks, rejected when none does), the failed listing is
  logged once followed by the listings of the rest of the scan, and the scan equals the
  scan started at the next index.
\<close>

theorem scan_skips_failed_membership:
  assumes "index < length licenses"
    and "inWindow now (licenses ! index)"
    and "listMembers ctl (membersPath poolUuid (registrationKey (licenseState (licenses ! index))))
           = Failed err
         \<or> listMembers ctl (membersPath poolUuid (registrationKey (licenseState (licenses ! index))))
           = Ok (NotArray d)"
  shows "findValidLicense ctl poolUuid now licenses index calls =
           ((case find (\<lambda>l. inWindow now l \<and> unclaimed ctl poolUuid l)
                    (drop (Suc index) licenses) of
               Some license \<Rightarrow> Resolved (registrationKey (licenseState license))
             | None \<Rightarrow> Rejected NoReason),
            calls
            @ [membersPath poolUuid (registrationKey (licenseState (licenses ! index)))]
            @ map (\<lambda>l. membersPath poolUuid (registrationKey (licenseState l)))
                (filter (inWindow now)
                   (takeWhile (\<lambda>l. \<not> (inWindow now l \<and> unclaimed ctl poolUuid l))
                      (drop (Suc index) licenses)))
            @ (case find (\<lambda>l. inWindow now l \<and> unclaimed ctl poolUuid l)
                      (drop (Suc index) licenses) of
                 Some license \<Rightarrow> [membersPath poolUuid (registrationKey (licenseState license))]
               | None \<Rightarrow> []))
         \<and> findValidLicense ctl poolUuid now licenses index calls
           = findValidLicense ctl poolUuid now licenses (Suc index)
               (calls @ [membersPath poolUuid (registrationKey (licenseState (licenses ! index)))])"
proof -
  let ?path = "membersPath poolUuid (registrationKey (licenseState (licenses ! index)))"
  from assms(3) have "\<not> unclaimed ctl poolUuid (licenses ! index)"
    by (auto simp: unclaimed_def)
  with assms(1,2) have next_one:
    "findValidLicense ctl poolUuid now licenses index calls
       = findValidLicense ctl poolUuid now licenses (Suc index) (calls @ [?path])"
    by (rule scan_claimed)
  show ?thesis
    unfolding next_one
    using scan_is_find [of ctl poolUuid now licenses "Suc index" "calls @ [?path]"]
      scan_log [of ctl poolUuid now licenses "Suc index" "calls @ [?path]"]
    by (simp add: prod_eq_iff)
qed

theorem scan_skips_failed_membership_witness:
  "findValidLicense (exampleControl strayOfferings ''PENDING'') ''uuid1'' 50 strayOfferings 0 []
     = (Resolved ''K3'',
        [membersPath ''uuid1'' ''K4'', membersPath ''uuid1'' ''K5'', membersPath ''uuid1'' ''K3''])
   \<and> findValidLicense (exampleControl strayOfferings ''PENDING'') ''uuid1'' 50 strayOfferings
        (Suc 0) [membersPath ''uuid1'' ''K4'']
     = (Resolved ''K3'',
        [membersPath ''uuid1'' ''K4'', membersPath ''uuid1'' ''K5'', membersPath ''uuid1'' ''K3''])"
proof -
  let ?ctl = "exampleControl strayOfferings ''PENDING''"
  let ?P = "\<lambda>l. inWindow 50 l \<and> unclaimed ?ctl ''uuid1'' l"
  let ?path = "\<lambda>l. membersPath ''uuid1'' (registrationKey (licenseState l))"
  have l0: "0 < length strayOfferings" and l1: "Suc 0 < length strayOfferings"
    by (simp_all add: strayOfferings_def)
  have w0: "inWindow 50 (strayOfferings ! 0)" and w1: "inWindow 50 (strayOfferings ! Suc 0)"
    by (simp_all add: strayOfferings_def inWindow_def)
  have k0: "registrationKey (licenseState (strayOfferings ! 0)) = ''K4''"
    and k1: "registrationKey (licenseState (strayOfferings ! Suc 0)) = ''K5''"
    by (simp_all add: strayOfferings_def)
  have m0: "listMembers ?ctl (membersPath ''uuid1''
               (registrationKey (licenseState (strayOfferings ! 0)))) = Failed (Error ''404'')
            \<or> listMembers ?ctl (membersPath ''uuid1''
               (registrationKey (licenseState (strayOfferings ! 0)))) = Ok (NotArray ''{}'')"
    unfolding k0 by code_simp
  have m1: "listMembers ?ctl (membersPath ''uuid1''
               (registrationKey (licenseState (strayOfferings ! Suc 0)))) = Failed (Error ''404'')
            \<or> listMembers ?ctl (membersPath ''uuid1''
               (registrationKey (licenseState (strayOfferings ! Suc 0)))) = Ok (NotArray ''{}'')"
    unfolding k1 by code_simp
  have f1: "find ?P (drop (Suc 0) strayOfferings) = Some (strayOfferings ! 2)" by code_simp
  have f2: "find ?P (drop (Suc (Suc 0)) strayOfferings) = Some (strayOfferings ! 2)" by code_simp
  have t1: "map ?path (filter (inWindow 50) (takeWhile (\<lambda>l. \<not> ?P l) (drop (Suc 0) strayOfferings)))
              = [membersPath ''uuid1'' ''K5'']" by code_simp
  have t2: "map ?path (filter (inWindow 50)
              (takeWhile (\<lambda>l. \<not> ?P l) (drop (Suc (Suc 0)) strayOfferings))) = []" by code_simp
  have k2: "registrationKey (licenseState (strayOfferings ! 2)) = ''K3''"
    by (simp add: strayOfferings_def)
  have first: "findValidLicense ?ctl ''uuid1'' 50 strayOfferings 0 []
     = (Resolved ''K3'',
        [membersPath ''uuid1'' ''K4'', membersPath ''uuid1'' ''K5'', membersPath ''uuid1'' ''K3''])"
    using conjunct1 [OF scan_skips_failed_membership [OF l0 w0 m0, of "[]"]]
    by (simp only: k0 k2 f1 t1 option.case append.simps)
  have second: "findValidLicense ?ctl ''uuid1'' 50 strayOfferings (Suc 0)
        [membersPath ''uuid1'' ''K4'']
     = (Resolved ''K3'',
        [membersPath ''uuid1'' ''K4'', membersPath ''uuid1'' ''K5'', membersPath ''uuid1'' ''K3''])"
    using conjunct1 [OF scan_skips_failed_membership [OF l1 w1 m1,
          of "[membersPath ''uuid1'' ''K4'']"]]
    by (simp only: k1 k2 f2 t2 option.case append.simps list.map)
  from first second show ?thesis by (rule conjI)
qed

section \<open>Pool resolution\<close>

lemma findPool_none:
  "\<forall>p\<in>set pools. name p \<noteq> poolName \<Longrightarrow> findPool poolName pools = None"
  by (induction pools) auto

text \<open>
  Claim C5. When the pool listing is an array with no entry named \<^verbatim>\<open>poolName\<close>, the
  returned promise is rejected with the error \<^verbatim>\<open>No license pool found with name: \<close>
  followed by the requested name; the only request issued is the pool listing (no
  offering is listed), and the retry executor plays no part, whatever it is.
\<close>

theorem pool_not_found:
  assumes "listPools ctl poolsPath = Ok (IsArray pools)"
    and "\<forall>p\<in>set pools. name p \<noteq> poolName"
  shows "getUnmanagedDeviceLicense tryUntil' ctl poolName now =
           \<lparr>returned = Rejected (Error (''No license pool found with name: '' @ poolName)),
            detached = None, requests = [poolsPath]\<rparr>"
  using assms by (simp add: getUnmanagedDeviceLicense_def findPool_none)

theorem pool_not_found_witness:
  "getUnmanagedDeviceLicense tryUntil (exampleControl exampleOfferings ''PENDING'') ''pool2'' 50 =
     \<lparr>returned = Rejected (Error ''No license pool found with name: pool2''),
      detached = None, requests = [poolsPath]\<rparr>"
proof -
  let ?ctl = "exampleControl exampleOfferings ''PENDING''"
  have a: "listPools ?ctl poolsPath = Ok (IsArray [\<lparr>name = ''pool1'', id' = Some ''uuid1''\<rparr>])"
    by (simp add: exampleControl_def)
  have b: "\<forall>p\<in>set [\<lparr>name = ''pool1'', id' = Some ''uuid1''\<rparr>]. name p \<noteq> ''pool2''"
    by simp
  show ?thesis using pool_not_found [OF a b, of tryUntil 50] by simp
qed

section \<open>Exhaustion of the scan\<close>

text \<open>
  Claim C4, evaluated on the code. With the expired offering \<^verbatim>\<open>K1\<close> and the claimed
  offering \<^verbatim>\<open>K2\<close> as the whole inventory, no offering passes both checks. The scan then
  calls \<^verbatim>\<open>deferred.reject()\<close> with no argument: the rejection carries no error value and
  no message, and it is this rejection that the promise of \<^verbatim>\<open>getUnmanagedDeviceLicense\<close>
  ends with.
\<close>

theorem exhausted_scan_rejects_without_reason:
  "findValidLicense (exampleControl (take 2 exampleOfferings) ''PENDING'') ''uuid1'' 50
      (take 2 exampleOfferings) 0 [] = (Rejected NoReason, [membersPath ''uuid1'' ''K2''])
   \<and> returned (getUnmanagedDeviceLicense tryUntil
        (exampleControl (take 2 exampleOfferings) ''PENDING'') ''pool1'' 50) = Rejected NoReason"
  by code_simp

section \<open>Waiting to be licensed\<close>

text \<open>
  The third handler never rejects: in the waiting branch the promise of the retry chain is
  not returned, so the handler's own promise is resolved whatever the executor, the remote
  replies and the key are.
\<close>

lemma waiting_always_resolves:
  "returned (waitUntilLicensed tu ctl poolUuid response calls) = Resolved ()"
  by (simp add: waitUntilLicensed_def Let_def split: prod.splits)

text \<open>
  Claim C3, evaluated on the code. Pool \<^verbatim>\<open>pool1\<close> holds the free offering \<^verbatim>\<open>K3\<close> and the
  assignment reports \<^verbatim>\<open>PENDING\<close> at every poll. The executor polls 41 times (one attempt
  and 40 retries) and the retry chain ends rejected with \<^verbatim>\<open>Giving up on licensing via
  BIG-IQ.\<close>, but that chain is detached: the promise returned by
  \<^verbatim>\<open>getUnmanagedDeviceLicense\<close> is resolved, not rejected.
\<close>

theorem timeout_not_propagated:
  "returned (getUnmanagedDeviceLicense tryUntil (exampleControl exampleOfferings ''PENDING'')
       ''pool1'' 50) = Resolved ()
   \<and> detached (getUnmanagedDeviceLicense tryUntil (exampleControl exampleOfferings ''PENDING'')
       ''pool1'' 50) = Some (Rejected (Error ''Giving up on licensing via BIG-IQ.''))
   \<and> length (filter (\<lambda>p. p = assignmentPath ''uuid1'' None)
       (requests (getUnmanagedDeviceLicense tryUntil
          (exampleControl exampleOfferings ''PENDING'') ''pool1'' 50))) = 41"
  by code_simp

text \<open>
  Claim C9. Whenever the run reaches the waiting branch (the pool is resolved, the
  offerings are listed, the scan resolves with a non-empty key), what the run leaves
  behind is built from the result of the executor called with the policy of 40 retries at
  5000 ms on \<^verbatim>\<open>isLicensed\<close> and the request log so far, and from nothing else of the
  executor; the same holds of the third handler alone.
\<close>

theorem waiting_policy:
  assumes "listPools ctl poolsPath = Ok (IsArray pools)"
    and "findPool poolName pools = Some poolUuid"
    and "poolUuid \<noteq> []"
    and "listOfferings ctl (offeringsPath poolUuid) = Ok offerings"
    and "selectLicense ctl poolUuid now offerings [poolsPath, offeringsPath poolUuid]
           = (Resolved key, calls)"
    and "key \<noteq> []"
  shows "getUnmanagedDeviceLicense tu ctl poolName now =
           \<lparr>returned = Resolved (),
            detached = Some (givingUp (fst (tu \<lparr>maxRetries = 40, retryIntervalMs = 5000\<rparr>
                                             (isLicensed ctl poolUuid None) calls))),
            requests = snd (tu \<lparr>maxRetries = 40, retryIntervalMs = 5000\<rparr>
                              (isLicensed ctl poolUuid None) calls)\<rparr>
         \<and> waitUntilLicensed tu ctl poolUuid key calls =
           \<lparr>returned = Resolved (),
            detached = Some (givingUp (fst (tu \<lparr>maxRetries = 40, retryIntervalMs = 5000\<rparr>
                                             (isLicensed ctl poolUuid None) calls))),
            requests = snd (tu \<lparr>maxRetries = 40, retryIntervalMs = 5000\<rparr>
                              (isLicensed ctl poolUuid None) calls)\<rparr>"
proof -
  have w: "waitUntilLicensed tu ctl poolUuid key calls =
           \<lparr>returned = Resolved (),
            detached = Some (givingUp (fst (tu \<lparr>maxRetries = 40, retryIntervalMs = 5000\<rparr>
                                             (isLicensed ctl poolUuid None) calls))),
            requests = snd (tu \<lparr>maxRetries = 40, retryIntervalMs = 5000\<rparr>
                              (isLicensed ctl poolUuid None) calls)\<rparr>"
    using assms(6) by (simp add: waitUntilLicensed_def keyProperty_def split: prod.splits)
  have "getUnmanagedDeviceLicense tu ctl poolName now
          = waitUntilLicensed tu ctl poolUuid key calls"
    using assms(1-5) by (simp add: getUnmanagedDeviceLicense_def)
  with w show ?thesis by simp
qed

theorem waiting_policy_witness:
  "getUnmanagedDeviceLicense probe (exampleControl exampleOfferings ''PENDING'') ''pool1'' 50 =
     \<lparr>returned = Resolved (), detached = Some (Resolved ()),
      requests = [poolsPath, offeringsPath ''uuid1'', membersPath ''uuid1'' ''K2'',
                  membersPath ''uuid1'' ''K3'']\<rparr>
   \<and> getUnmanagedDeviceLicense (\<lambda>policy. probe \<lparr>maxRetries = 39, retryIntervalMs = 5000\<rparr>)
        (exampleControl exampleOfferings ''PENDING'') ''pool1'' 50 =
     \<lparr>returned = Resolved (), detached = Some Pending,
      requests = [poolsPath, offeringsPath ''uuid1'', membersPath ''uuid1'' ''K2'',
                  membersPath ''uuid1'' ''K3'']\<rparr>"
proof -
  let ?ctl = "exampleControl exampleOfferings ''PENDING''"
  let ?calls = "[poolsPath, offeringsPath ''uuid1'', membersPath ''uuid1'' ''K2'',
                  membersPath ''uuid1'' ''K3'']"
  have a: "listPools ?ctl poolsPath = Ok (IsArray [\<lparr>name = ''pool1'', id' = Some ''uuid1''\<rparr>])"
    by (simp add: exampleControl_def)
  have b: "findPool ''pool1'' [\<lparr>name = ''pool1'', id' = Some ''uuid1''\<rparr>] = Some ''uuid1''"
    by simp
  have c: "''uuid1'' \<noteq> []" by simp
  have d: "listOfferings ?ctl (offeringsPath ''uuid1'') = Ok (Some exampleOfferings)"
    by (simp add: exampleControl_def)
  have e: "selectLicense ?ctl ''uuid1'' 50 (Some exampleOfferings)
             [poolsPath, offeringsPath ''uuid1''] = (Resolved ''K3'', ?calls)"
    by code_simp
  have f: "''K3'' \<noteq> []" by simp
  show ?thesis
    using waiting_policy [OF a b c d e f, of probe]
      waiting_policy [OF a b c d e f,
        of "\<lambda>policy. probe \<lparr>maxRetries = 39, retryIntervalMs = 5000\<rparr>"]
    by (simp add: probe_def)
qed

section \<open>The onboarding operations: properties\<close>

lemma matches_in_message: "sublist ''matches'' ''New hostname matches existing hostname''"
proof -
  have "''New hostname matches existing hostname''
        = ''New hostname '' @ ''matches'' @ '' existing hostname''" by simp
  then show ?thesis unfolding sublist_def by blast
qed

text \<open>
  Claim C6. The hostname operation called with the current device name issues no request
  and returns a no-op whose message contains \<^verbatim>\<open>matches\<close>; called with a differing name it
  issues the \<^verbatim>\<open>mv\<close> create on \<^verbatim>\<open>/tm/cm/device\<close> and then the modify of
  \<^verbatim>\<open>/tm/sys/global-settings\<close> carrying the new hostname, in that order.
\<close>

theorem hostname_rename:
  "(\<exists>message. hostname current current = (NoOp message, []) \<and> sublist ''matches'' message)
   \<and> (newHostname \<noteq> current \<longrightarrow>
        snd (hostname current newHostname) =
          [Create ''/tm/cm/device''
             (Obj [(''command'', Str ''mv''), (''name'', Str current),
                   (''target'', Str newHostname)]),
           Modify ''/tm/sys/global-settings'' (Obj [(''hostname'', Str newHostname)])])"
  using matches_in_message by (simp add: hostname_def)

theorem hostname_rename_witness:
  "(\<exists>message. hostname ''myNewHostName'' ''myNewHostName'' = (NoOp message, [])
       \<and> sublist ''matches'' message)
   \<and> snd (hostname ''yourOldHostname'' ''myNewHostName'') =
          [Create ''/tm/cm/device''
             (Obj [(''command'', Str ''mv''), (''name'', Str ''yourOldHostname''),
                   (''target'', Str ''myNewHostName'')]),
           Modify ''/tm/sys/global-settings'' (Obj [(''hostname'', Str ''myNewHostName'')])]"
proof -
  have ne: "''myNewHostName'' \<noteq> ''yourOldHostname''" by simp
  show ?thesis
    using hostname_rename [of "''myNewHostName''" "''myNewHostName''"]
      hostname_rename [of "''yourOldHostname''" "''myNewHostName''"] ne
    by blast
qed

text \<open>
  Claim C7. The fields carried by what a reconciliation issues are exactly the desired
  fields whose value differs from the current state; what is issued is at most one modify
  of the resource; a field the desired mapping does not mention keeps its current value.
\<close>

theorem minimal_patch:
  "set (concat (map bodyFields (snd (applyIfDifferent resourcePath desired current))))
     = {(field, v). (field, v) \<in> set desired \<and> current field \<noteq> Some v}
   \<and> (\<forall>r \<in> set (snd (applyIfDifferent resourcePath desired current)).
        r = Modify resourcePath (Obj (differingFields desired current)))
   \<and> length (snd (applyIfDifferent resourcePath desired current)) \<le> 1
   \<and> (\<forall>field. field \<notin> fst ` set desired \<longrightarrow>
        foldl applyRequest current (snd (applyIfDifferent resourcePath desired current)) field
          = current field)"
proof -
  have untouched: "field \<notin> fst ` set desired \<Longrightarrow>
      (current ++ map_of (differingFields desired current)) field = current field" for field
  proof -
    assume a: "field \<notin> fst ` set desired"
    have "fst ` set (differingFields desired current) \<subseteq> fst ` set desired"
      by (auto simp: differingFields_def)
    with a have "field \<notin> fst ` set (differingFields desired current)" by blast
    then have "map_of (differingFields desired current) field = None"
      by (simp add: map_of_eq_None_iff)
    then show ?thesis by (simp add: map_add_def)
  qed
  show ?thesis
    using untouched
    by (auto simp: applyIfDifferent_def Let_def differingFields_def filter_empty_conv)
qed

theorem minimal_patch_witness:
  "snd (applyIfDifferent ''/tm/sys/provision/'' [(''a'', Str ''1''), (''b'', Str ''2'')]
         [''a'' \<mapsto> Str ''1'', ''b'' \<mapsto> Str ''9'', ''c'' \<mapsto> Str ''3''])
     = [Modify ''/tm/sys/provision/'' (Obj [(''b'', Str ''2'')])]
   \<and> foldl applyRequest [''a'' \<mapsto> Str ''1'', ''b'' \<mapsto> Str ''9'', ''c'' \<mapsto> Str ''3'']
        (snd (applyIfDifferent ''/tm/sys/provision/'' [(''a'', Str ''1''), (''b'', Str ''2'')]
         [''a'' \<mapsto> Str ''1'', ''b'' \<mapsto> Str ''9'', ''c'' \<mapsto> Str ''3''])) ''c''
      = Some (Str ''3'')"
proof -
  let ?d = "[(''a'', Str ''1''), (''b'', Str ''2'')]"
  let ?c = "[''a'' \<mapsto> Str ''1'', ''b'' \<mapsto> Str ''9'', ''c'' \<mapsto> Str ''3'']"
  have 1: "snd (applyIfDifferent ''/tm/sys/provision/'' ?d ?c)
      = [Modify ''/tm/sys/provision/'' (Obj [(''b'', Str ''2'')])]"
    by (simp add: applyIfDifferent_def differingFields_def Let_def)
  have 2: "''c'' \<notin> fst ` set ?d" by simp
  have 3: "?c ''c'' = Some (Str ''3'')" by simp
  from minimal_patch [of "''/tm/sys/provision/''" ?d ?c] 2
  have "foldl applyRequest ?c (snd (applyIfDifferent ''/tm/sys/provision/'' ?d ?c)) ''c''
          = ?c ''c''" by blast
  with 1 3 show ?thesis by simp
qed

lemma shellField_lookup:
  "map_of (shellField shell) ''name'' = None"
  "map_of (shellField shell) ''partition-access'' = None"
  by (cases shell; simp)+

text \<open>
  Claim C8. For a name absent from the listing, \<^verbatim>\<open>updateUser\<close> with a role issues a create
  carrying the name and the role under \<^verbatim>\<open>partition-access\<close>; for a name present in the
  listing it issues a modify whose body has neither a \<^verbatim>\<open>name\<close> nor a
  \<^verbatim>\<open>partition-access\<close> field; for an absent name and no role it fails with a
  configuration error and issues nothing.
\<close>

theorem updateUser_create_or_modify:
  "(user \<notin> set existing \<longrightarrow>
      (\<exists>r. updateUser existing user password (Some role) shell = Inr r \<and> isCreate r
            \<and> map_of (bodyFields r) ''name'' = Some (Str user)
            \<and> map_of (bodyFields r) ''partition-access''
                = Some (Obj [(''all-partitions'', Obj [(''role'', Str role)])])))
   \<and> (user \<in> set existing \<longrightarrow>
      (\<exists>r. updateUser existing user password anyRole shell = Inr r \<and> \<not> isCreate r
            \<and> map_of (bodyFields r) ''name'' = None
            \<and> map_of (bodyFields r) ''partition-access'' = None))
   \<and> (user \<notin> set existing \<longrightarrow>
      (\<exists>message. updateUser existing user password None shell
                   = Inl (ConfigurationError message)))"
  by (cases shell) (simp_all add: updateUser_def)

theorem updateUser_create_or_modify_witness:
  "updateUser [''admin''] ''myUser'' ''myPass'' (Some ''myRole'') None
     = Inr (Create ''/tm/auth/user''
          (Obj [(''name'', Str ''myUser''), (''password'', Str ''myPass''),
                (''partition-access'', Obj [(''all-partitions'', Obj [(''role'', Str ''myRole'')])])]))
   \<and> updateUser [''myUser''] ''myUser'' ''myPass'' (Some ''myRole'') None
     = Inr (Modify ''/tm/auth/user/myUser'' (Obj [(''password'', Str ''myPass'')]))
   \<and> (\<exists>message. updateUser [''admin''] ''myUser'' ''myPass'' None None
                   = Inl (ConfigurationError message))"
proof -
  have a: "''myUser'' \<notin> set [''admin'']" by simp
  have b: "''myUser'' \<in> set [''myUser'']" by simp
  have c: "updateUser [''admin''] ''myUser'' ''myPass'' (Some ''myRole'') None
     = Inr (Create ''/tm/auth/user''
          (Obj [(''name'', Str ''myUser''), (''password'', Str ''myPass''),
                (''partition-access'', Obj [(''all-partitions'', Obj [(''role'', Str ''myRole'')])])]))"
    by (simp add: updateUser_def)
  have d: "updateUser [''myUser''] ''myUser'' ''myPass'' (Some ''myRole'') None
     = Inr (Modify ''/tm/auth/user/myUser'' (Obj [(''password'', Str ''myPass'')]))"
    by (simp add: updateUser_def)
  from updateUser_create_or_modify [of "''myUser''" "[''admin'']" "''myPass''" "''myRole''" None] a
  have "\<exists>message. updateUser [''admin''] ''myUser'' ''myPass'' None None
                   = Inl (ConfigurationError message)" by blast
  with c d show ?thesis by simp
qed

end
